theory Spec2Isabelle
  imports Main "HOL-Library.Char_ord" "HOL-Library.List_Lexorder"
begin

section \<open>Data model\<close>

text \<open>
  The result graph of the analysis, as declared in \<^verbatim>\<open>src/types.ts\<close> and, with the same
  field names in its JSON tags, in the Go analyzer. A string is a list of characters;
  file lines are integers. The methods of an interface are \<open>MethodInfo\<close> records too, as
  in the Go analyzer, which writes them with an empty \<open>implementedFrom\<close>; the signature
  matcher reads of a method only its name, parameters and return types.
\<close>

record Position =
  path :: string
  line :: int

record Declaration =
  decl_name :: string
  decl_position :: Position

record ParamInfo =
  param_name :: string
  param_type :: string

record MethodInfo =
  m_name :: string
  m_position :: Position
  parameters :: "ParamInfo list"
  returnTypes :: "string list"
  implementedFrom :: "Declaration list"

record InterfaceInfo =
  i_name :: string
  i_position :: Position
  i_methods :: "MethodInfo list"

record StructInfo =
  s_name :: string
  s_position :: Position
  s_methods :: "MethodInfo list"
  embeddedTypes :: "string list"
  implementedInterfaces :: "Declaration list"

record AnalysisResult =
  interfaces :: "InterfaceInfo list"
  structs :: "StructInfo list"

section \<open>The portable signature matcher (goAnalyzer.ts)\<close>

text \<open>
  The test \<^verbatim>\<open>t.length === 1 && t.match(/^[A-Z]$/)\<close>: the string is one character and that
  character lies between \<open>A\<close> and \<open>Z\<close>.
\<close>

definition isTypeParameter :: "string \<Rightarrow> bool" where
  "isTypeParameter t =
     (length t = 1 \<and> (case t of [c] \<Rightarrow> CHR ''A'' \<le> c \<and> c \<le> CHR ''Z'' | _ \<Rightarrow> False))"

text \<open>
  The two \<^verbatim>\<open>for\<close> loops of \<^verbatim>\<open>methodsMatch\<close>, from index \<open>i\<close> on. Each runs over
  the positions of the struct method's list and reads the interface method's list at the
  same index; \<^verbatim>\<open>methodsMatch\<close> enters them only after it has found the two lengths
  equal, so both reads are in range.
\<close>

function parametersLoop :: "ParamInfo list \<Rightarrow> ParamInfo list \<Rightarrow> nat \<Rightarrow> bool" where
  "parametersLoop sps ips i =
     (if i < length sps then
        (if isTypeParameter (param_type (ips ! i)) then parametersLoop sps ips (i + 1)
         else if param_type (sps ! i) \<noteq> param_type (ips ! i) then False
         else parametersLoop sps ips (i + 1))
      else True)"
  by pat_completeness auto
termination
  by (relation "measure (\<lambda>(sps, ips, i). length sps - i)") auto

function returnTypesLoop :: "string list \<Rightarrow> string list \<Rightarrow> nat \<Rightarrow> bool" where
  "returnTypesLoop srs irs i =
     (if i < length srs then
        (if isTypeParameter (irs ! i) then returnTypesLoop srs irs (i + 1)
         else if srs ! i \<noteq> irs ! i then False
         else returnTypesLoop srs irs (i + 1))
      else True)"
  by pat_completeness auto
termination
  by (relation "measure (\<lambda>(srs, irs, i). length srs - i)") auto

declare parametersLoop.simps [simp del] returnTypesLoop.simps [simp del]

definition methodsMatch :: "MethodInfo \<Rightarrow> MethodInfo \<Rightarrow> bool" where
  "methodsMatch structMethod interfaceMethod =
     (if m_name structMethod \<noteq> m_name interfaceMethod then False
      else if length (parameters structMethod) \<noteq> length (parameters interfaceMethod) then False
      else if length (returnTypes structMethod) \<noteq> length (returnTypes interfaceMethod) then False
      else if \<not> parametersLoop (parameters structMethod) (parameters interfaceMethod) 0 then False
      else returnTypesLoop (returnTypes structMethod) (returnTypes interfaceMethod) 0)"

text \<open>
  The search of \<^verbatim>\<open>implementsInterface\<close> for one interface method:
  \<^verbatim>\<open>struct.methods.find(structMethod => methodsMatch(structMethod, interfaceMethod))\<close>.
\<close>

definition matchingMethod :: "StructInfo \<Rightarrow> MethodInfo \<Rightarrow> MethodInfo option" where
  "matchingMethod struct interfaceMethod =
     find (\<lambda>structMethod. methodsMatch structMethod interfaceMethod) (s_methods struct)"

text \<open>
  The loop of \<^verbatim>\<open>implementsInterface\<close> over the interface's methods. A method record is
  an object and so truthy: \<^verbatim>\<open>!matchingMethod\<close> holds only when \<^verbatim>\<open>find\<close> returned
  \<^verbatim>\<open>undefined\<close>.
\<close>

fun implementsLoop :: "StructInfo \<Rightarrow> MethodInfo list \<Rightarrow> bool" where
  "implementsLoop struct [] = True"
| "implementsLoop struct (interfaceMethod # rest) =
     (case matchingMethod struct interfaceMethod of
        None \<Rightarrow> False
      | Some m \<Rightarrow> implementsLoop struct rest)"

definition implementsInterface :: "StructInfo \<Rightarrow> InterfaceInfo \<Rightarrow> bool" where
  "implementsInterface struct iface = implementsLoop struct (i_methods iface)"

section \<open>Post-processing of the analyzer output (analyzeWorkspace)\<close>

text \<open>
  The body of \<^verbatim>\<open>for (const method of struct.methods)\<close>: the first interface method that
  \<^verbatim>\<open>methodsMatch\<close> accepts for this struct method, if any, gives one more entry of
  \<^verbatim>\<open>implementedFrom\<close>, whose position is \<^verbatim>\<open>iface.position\<close>. The field is declared as
  an array in \<^verbatim>\<open>types.ts\<close> and the Go analyzer always writes one, so the guard
  \<^verbatim>\<open>if (!method.implementedFrom)\<close> never fires on a value of that type.
\<close>

definition updateMethod :: "InterfaceInfo \<Rightarrow> MethodInfo \<Rightarrow> MethodInfo" where
  "updateMethod iface method =
     (case find (\<lambda>im. methodsMatch method im) (i_methods iface) of
        None \<Rightarrow> method
      | Some matchingInterfaceMethod \<Rightarrow>
          method\<lparr>implementedFrom := implementedFrom method @
            [\<lparr>decl_name = i_name iface @ ''.'' @ m_name matchingInterfaceMethod,
              decl_position = i_position iface\<rparr>]\<rparr>)"

text \<open>
  The body of \<^verbatim>\<open>for (const iface of result.interfaces)\<close>. The code pushes the interface
  object itself; read as a \<^verbatim>\<open>Declaration\<close> it is its name and its position.
\<close>

definition checkInterface :: "InterfaceInfo \<Rightarrow> StructInfo \<Rightarrow> StructInfo" where
  "checkInterface iface struct =
     (if implementsInterface struct iface then
        struct\<lparr>implementedInterfaces := implementedInterfaces struct @
                 [\<lparr>decl_name = i_name iface, decl_position = i_position iface\<rparr>],
               s_methods := map (updateMethod iface) (s_methods struct)\<rparr>
      else struct)"

text \<open>The body of \<^verbatim>\<open>for (const struct of result.structs)\<close>.\<close>

definition postProcessStruct :: "InterfaceInfo list \<Rightarrow> StructInfo \<Rightarrow> StructInfo" where
  "postProcessStruct ifaces struct = fold checkInterface ifaces (struct\<lparr>implementedInterfaces := []\<rparr>)"

definition postProcess :: "AnalysisResult \<Rightarrow> AnalysisResult" where
  "postProcess result = result\<lparr>structs := map (postProcessStruct (interfaces result)) (structs result)\<rparr>"

section \<open>Validation of the analyzer output (analyzeWorkspace)\<close>

text \<open>
  The value that \<^verbatim>\<open>JSON.parse\<close> returns. A number is kept as an integer: the checks
  below read of a number only whether it is zero.
\<close>

datatype json =
    JNull
  | JBool bool
  | JNumber int
  | JString string
  | JArray "json list"
  | JObject "(string \<times> json) list"

datatype JsError = Error string

text \<open>JavaScript truthiness, and \<^verbatim>\<open>typeof v === 'object'\<close> (which holds of \<^verbatim>\<open>null\<close> too).\<close>

fun truthy :: "json \<Rightarrow> bool" where
  "truthy JNull = False"
| "truthy (JBool b) = b"
| "truthy (JNumber n) = (n \<noteq> 0)"
| "truthy (JString s) = (s \<noteq> [])"
| "truthy (JArray xs) = True"
| "truthy (JObject kvs) = True"

fun typeofObject :: "json \<Rightarrow> bool" where
  "typeofObject JNull = True"
| "typeofObject (JArray xs) = True"
| "typeofObject (JObject kvs) = True"
| "typeofObject v = False"

text \<open>
  Reading a property of a parsed value: of an object, the member of that name (the last
  one, where the text repeats a name); of an array or a primitive, \<^verbatim>\<open>undefined\<close>, here
  \<open>None\<close>, for the two names read below.
\<close>

fun getProperty :: "json \<Rightarrow> string \<Rightarrow> json option" where
  "getProperty (JObject kvs) k = map_of (rev kvs) k"
| "getProperty v k = None"

fun isArray :: "json option \<Rightarrow> bool" where
  "isArray (Some (JArray xs)) = True"
| "isArray v = False"

fun elements :: "json option \<Rightarrow> json list" where
  "elements (Some (JArray xs)) = xs"
| "elements v = []"

text \<open>
  The checks between \<^verbatim>\<open>JSON.parse\<close> and the post-processing, in the handler of the
  analyzer's exit with code 0 and an output that is not blank. The argument is the outcome
  of \<^verbatim>\<open>JSON.parse(stdout)\<close>: the value, or the message of the exception it throws, which
  the \<^verbatim>\<open>catch\<close> clause turns into a rejection. Every \<^verbatim>\<open>reject\<close> is an \<open>Inl\<close>; on
  success the two arrays go on to the post-processing.
\<close>

definition validateOutput :: "string + json \<Rightarrow> JsError + (json list \<times> json list)" where
  "validateOutput parsed =
     (case parsed of
        Inl message \<Rightarrow> Inl (Error (''Failed to parse analyzer output: '' @ message))
      | Inr result \<Rightarrow>
          if \<not> truthy result \<or> \<not> typeofObject result then
            Inl (Error ''Invalid analyzer output: not an object'')
          else if \<not> isArray (getProperty result ''interfaces'')
                  \<or> \<not> isArray (getProperty result ''structs'') then
            Inl (Error ''Invalid analyzer output: missing interfaces or structs arrays'')
          else Inr (elements (getProperty result ''interfaces''),
                    elements (getProperty result ''structs'')))"

section \<open>The Go analyzer\<close>

subsection \<open>Paths\<close>

text \<open>
  \<^verbatim>\<open>filepath.Separator\<close> is a constant of the platform the analyzer is built for: a
  backslash on Windows, a slash everywhere else. \<^verbatim>\<open>filepath.ToSlash\<close> returns its argument
  when the separator is a slash and otherwise replaces every separator by a slash.
\<close>

datatype GOOS = Windows | Unix

fun Separator :: "GOOS \<Rightarrow> char" where
  "Separator Windows = CHR 0x5C"
| "Separator Unix = CHR ''/''"

definition ToSlash :: "GOOS \<Rightarrow> string \<Rightarrow> string" where
  "ToSlash os p =
     (if Separator os = CHR ''/'' then p
      else map (\<lambda>c. if c = Separator os then CHR ''/'' else c) p)"

text \<open>
  \<^verbatim>\<open>strings.Split(s, "/")\<close>, for a separator of one character: the pieces between the
  separators, one more than there are separators. \<^verbatim>\<open>strings.Join(parts, "/")\<close>.
\<close>

fun Split :: "char \<Rightarrow> string \<Rightarrow> string list" where
  "Split sep [] = [[]]"
| "Split sep (c # cs) =
     (if c = sep then [] # Split sep cs
      else (case Split sep cs of
              piece # pieces \<Rightarrow> (c # piece) # pieces
            | [] \<Rightarrow> [[c]]))"

fun Join :: "string list \<Rightarrow> string \<Rightarrow> string" where
  "Join [] sep = []"
| "Join [p] sep = p"
| "Join (p # ps) sep = p @ sep @ Join ps sep"

definition makeRelativePath :: "GOOS \<Rightarrow> string \<Rightarrow> string" where
  "makeRelativePath os p =
     (let path = ToSlash os p;
          parts = Split (CHR ''/'') path
      in if length parts > 2 then Join (drop (length parts - 3) parts) ''/''
         else path)"

text \<open>
  The stored path as the specification words it: backslashes become slashes, then the last
  three slash-separated components are kept when there are more than two.
\<close>

definition spec_relative_path :: "string \<Rightarrow> string" where
  "spec_relative_path p =
     (let path = map (\<lambda>c. if c = CHR 0x5C then CHR ''/'' else c) p;
          parts = Split (CHR ''/'') path
      in if length parts > 2 then Join (drop (length parts - 3) parts) ''/''
         else path)"

subsection \<open>The type-checked program\<close>

text \<open>
  What the analyzer reads of the packages that \<^verbatim>\<open>packages.Load\<close> returns. A function
  object carries its name, its position and its signature: the parameters as pairs of a
  name and of the text \<^verbatim>\<open>types.TypeString\<close> gives for the type, the results as such texts.
\<close>

record GoFunc =
  f_name :: string
  f_filename :: string
  f_line :: int
  f_params :: "(string \<times> string) list"
  f_results :: "string list"

text \<open>
  The underlying type of an object: an interface with its methods (explicit and embedded),
  a struct with its fields, each a pair of the \<^verbatim>\<open>Anonymous\<close> flag and the text of the
  field's type, or any other type.
\<close>

datatype GoUnderlying =
    Interface "GoFunc list"
  | Struct "(bool \<times> string) list"
  | OtherType

text \<open>
  An object of a package scope: \<open>o_isNamed\<close> tells whether its type is a \<^verbatim>\<open>*types.Named\<close>;
  \<open>o_methodSet\<close> and \<open>o_ptrMethodSet\<close> are \<^verbatim>\<open>types.NewMethodSet\<close> of the type and of the
  pointer to it.
\<close>

record GoObject =
  o_name :: string
  o_filename :: string
  o_line :: int
  o_isNamed :: bool
  o_underlying :: GoUnderlying
  o_methodSet :: "GoFunc list"
  o_ptrMethodSet :: "GoFunc list"

record GoPackage =
  pkgPath :: string
  pkgErrors :: "string list"
  pkgScope :: "(string \<times> GoObject) list"

text \<open>
  \<^verbatim>\<open>scope.Names()\<close> returns the names of the scope in sorted order, \<^verbatim>\<open>scope.Lookup\<close> the
  object of a name.
\<close>

definition Names :: "(string \<times> GoObject) list \<Rightarrow> string list" where
  "Names scope = sort (remdups (map fst scope))"

definition Lookup :: "(string \<times> GoObject) list \<Rightarrow> string \<Rightarrow> GoObject option" where
  "Lookup scope n = map_of scope n"

text \<open>
  The first argument of \<^verbatim>\<open>types.Implements\<close>: the named type of an object or the pointer
  to it. The function itself belongs to the Go type checker; the analyzer is modelled for
  any such function, which receives the type and the methods of the interface.
\<close>

datatype GoType = Named GoObject | Pointer GoObject

type_synonym Implements = "GoType \<Rightarrow> GoFunc list \<Rightarrow> bool"

text \<open>
  For concrete programs without type parameters, the rule of the language: a type
  implements an interface when its method set holds, for each method of the interface, a
  method of that name with the same parameter and result types.
\<close>

definition sameSignature :: "GoFunc \<Rightarrow> GoFunc \<Rightarrow> bool" where
  "sameSignature m im =
     (f_name m = f_name im \<and> map snd (f_params m) = map snd (f_params im)
      \<and> f_results m = f_results im)"

fun methodSetImplements :: Implements where
  "methodSetImplements (Named obj) ims =
     list_all (\<lambda>im. list_ex (\<lambda>m. sameSignature m im) (o_methodSet obj)) ims"
| "methodSetImplements (Pointer obj) ims =
     list_all (\<lambda>im. list_ex (\<lambda>m. sameSignature m im) (o_ptrMethodSet obj)) ims"

subsection \<open>Extraction\<close>

definition extractParams :: "GoFunc \<Rightarrow> ParamInfo list" where
  "extractParams signature =
     map (\<lambda>(n, t). \<lparr>param_name = n, param_type = t\<rparr>) (f_params signature)"

definition extractReturnTypes :: "GoFunc \<Rightarrow> string list" where
  "extractReturnTypes signature = f_results signature"

text \<open>The \<^verbatim>\<open>MethodInfo\<close> literal that both \<^verbatim>\<open>processInterface\<close> and \<^verbatim>\<open>processStruct\<close> build.\<close>

definition methodInfo :: "GOOS \<Rightarrow> GoFunc \<Rightarrow> MethodInfo" where
  "methodInfo os method =
     \<lparr>m_name = f_name method,
      m_position = \<lparr>path = makeRelativePath os (f_filename method), line = f_line method\<rparr>,
      parameters = extractParams method,
      returnTypes = extractReturnTypes method,
      implementedFrom = []\<rparr>"

definition processInterface :: "GOOS \<Rightarrow> GoObject \<Rightarrow> InterfaceInfo option" where
  "processInterface os obj =
     (case o_underlying obj of
        Interface methods \<Rightarrow>
          Some \<lparr>i_name = o_name obj,
                i_position = \<lparr>path = makeRelativePath os (o_filename obj), line = o_line obj\<rparr>,
                i_methods = map (methodInfo os) methods\<rparr>
      | _ \<Rightarrow> None)"

text \<open>
  The closure \<^verbatim>\<open>processMethodSet\<close> of \<^verbatim>\<open>processStruct\<close>: it appends to the methods
  collected so far each method of the set whose name no collected method has.
\<close>

fun processMethodSet :: "GOOS \<Rightarrow> GoFunc list \<Rightarrow> MethodInfo list \<Rightarrow> MethodInfo list" where
  "processMethodSet os [] methods = methods"
| "processMethodSet os (method # ms) methods =
     (if list_ex (\<lambda>existingMethod. m_name existingMethod = f_name method) methods
      then processMethodSet os ms methods
      else processMethodSet os ms (methods @ [methodInfo os method]))"

text \<open>
  The two calls \<^verbatim>\<open>processMethodSet(methodSet)\<close> and \<^verbatim>\<open>processMethodSet(ptrMethodSet)\<close>
  of \<^verbatim>\<open>processStruct\<close>, in that order, on the empty list of methods.
\<close>

definition structMethods :: "GOOS \<Rightarrow> GoObject \<Rightarrow> MethodInfo list" where
  "structMethods os obj =
     processMethodSet os (o_ptrMethodSet obj) (processMethodSet os (o_methodSet obj) [])"

text \<open>The inner loop over \<^verbatim>\<open>iface.Methods\<close> for one method of the struct.\<close>

fun updateImplementedFrom :: "InterfaceInfo \<Rightarrow> MethodInfo list \<Rightarrow> MethodInfo \<Rightarrow> MethodInfo" where
  "updateImplementedFrom iface [] method = method"
| "updateImplementedFrom iface (ifaceMethod # rest) method =
     updateImplementedFrom iface rest
       (if m_name method = m_name ifaceMethod then
          method\<lparr>implementedFrom := implementedFrom method @
            [\<lparr>decl_name = i_name iface @ ''.'' @ m_name ifaceMethod,
              decl_position = m_position ifaceMethod\<rparr>]\<rparr>
        else method)"

text \<open>The body of \<^verbatim>\<open>for _, iface := range allInterfaces\<close>.\<close>

definition checkImplements ::
  "Implements \<Rightarrow> GoPackage \<Rightarrow> GoObject \<Rightarrow> InterfaceInfo \<Rightarrow> StructInfo \<Rightarrow> StructInfo" where
  "checkImplements implements pkg named iface info =
     (case Lookup (pkgScope pkg) (i_name iface) of
        None \<Rightarrow> info
      | Some ifaceObj \<Rightarrow>
          (case o_underlying ifaceObj of
             Interface ifaceType \<Rightarrow>
               if implements (Named named) ifaceType \<or> implements (Pointer named) ifaceType then
                 info\<lparr>implementedInterfaces := implementedInterfaces info @
                         [\<lparr>decl_name = i_name iface, decl_position = i_position iface\<rparr>],
                      s_methods := map (updateImplementedFrom iface (i_methods iface)) (s_methods info)\<rparr>
               else info
           | _ \<Rightarrow> info))"

definition processStruct ::
  "GOOS \<Rightarrow> Implements \<Rightarrow> GoObject \<Rightarrow> GoPackage \<Rightarrow> InterfaceInfo list \<Rightarrow> StructInfo option" where
  "processStruct os implements obj pkg allInterfaces =
     (if \<not> o_isNamed obj then None
      else case o_underlying obj of
        Struct flds \<Rightarrow>
          Some (fold (checkImplements implements pkg obj) allInterfaces
            \<lparr>s_name = o_name obj,
             s_position = \<lparr>path = makeRelativePath os (o_filename obj), line = o_line obj\<rparr>,
             s_methods = structMethods os obj,
             embeddedTypes = map snd (filter fst flds),
             implementedInterfaces = []\<rparr>)
      | _ \<Rightarrow> None)"

subsection \<open>The pass over the packages\<close>

datatype LogLine =
    LoadError string
  | PackageError string string

text \<open>The body of \<^verbatim>\<open>for _, name := range scope.Names()\<close>.\<close>

definition processName ::
  "GOOS \<Rightarrow> Implements \<Rightarrow> GoPackage \<Rightarrow> string \<Rightarrow> AnalysisResult \<Rightarrow> AnalysisResult" where
  "processName os implements pkg n result =
     (case Lookup (pkgScope pkg) n of
        None \<Rightarrow> result
      | Some obj \<Rightarrow>
          (case o_underlying obj of
             Interface methods \<Rightarrow>
               if length methods > 0 then
                 (case processInterface os obj of
                    None \<Rightarrow> result
                  | Some iface \<Rightarrow> result\<lparr>interfaces := interfaces result @ [iface]\<rparr>)
               else result
           | Struct flds \<Rightarrow>
               (case processStruct os implements obj pkg (interfaces result) of
                  None \<Rightarrow> result
                | Some strct \<Rightarrow> result\<lparr>structs := structs result @ [strct]\<rparr>)
           | OtherType \<Rightarrow> result))"

text \<open>
  The body of \<^verbatim>\<open>for _, pkg := range pkgs\<close>, on the result and the lines logged so far: a
  package with errors has them logged and is left out.
\<close>

definition processPackage ::
  "GOOS \<Rightarrow> Implements \<Rightarrow> GoPackage \<Rightarrow> AnalysisResult \<times> LogLine list \<Rightarrow> AnalysisResult \<times> LogLine list" where
  "processPackage os implements pkg st =
     (if length (pkgErrors pkg) > 0 then
        (fst st, snd st @ map (PackageError (pkgPath pkg)) (pkgErrors pkg))
      else
        (fold (processName os implements pkg) (Names (pkgScope pkg)) (fst st), snd st))"

text \<open>
  \<^verbatim>\<open>analyze\<close>, on what \<^verbatim>\<open>packages.Load\<close> returned: an error (\<open>Inl\<close>) or the packages.
\<close>

definition analyze ::
  "GOOS \<Rightarrow> Implements \<Rightarrow> string + GoPackage list \<Rightarrow> AnalysisResult \<times> LogLine list" where
  "analyze os implements loaded =
     (case loaded of
        Inl err \<Rightarrow> (\<lparr>interfaces = [], structs = []\<rparr>, [LoadError err])
      | Inr pkgs \<Rightarrow>
          fold (processPackage os implements) pkgs (\<lparr>interfaces = [], structs = []\<rparr>, []))"

section \<open>Sample programs\<close>

text \<open>
  One package, in one file: the interface \<open>Shape\<close> with the method \<open>Area() float64\<close>, the
  empty interface \<open>Any\<close>, and the structs \<open>Circle\<close> and \<open>Square\<close>, each with a method
  \<open>Area() float64\<close> on the value receiver.
\<close>

definition shapesFile :: string where
  "shapesFile = ''/work/shapes/geometry/shapes.go''"

definition areaFunc :: "int \<Rightarrow> GoFunc" where
  "areaFunc l = \<lparr>f_name = ''Area'', f_filename = shapesFile, f_line = l,
                 f_params = [], f_results = [''float64'']\<rparr>"

definition shapeObj :: GoObject where
  "shapeObj = \<lparr>o_name = ''Shape'', o_filename = shapesFile, o_line = 3, o_isNamed = True,
               o_underlying = Interface [areaFunc 4], o_methodSet = [areaFunc 4],
               o_ptrMethodSet = []\<rparr>"

definition anyObj :: GoObject where
  "anyObj = \<lparr>o_name = ''Any'', o_filename = shapesFile, o_line = 1, o_isNamed = True,
             o_underlying = Interface [], o_methodSet = [], o_ptrMethodSet = []\<rparr>"

definition circleObj :: GoObject where
  "circleObj = \<lparr>o_name = ''Circle'', o_filename = shapesFile, o_line = 7, o_isNamed = True,
                o_underlying = Struct [(False, ''float64'')], o_methodSet = [areaFunc 9],
                o_ptrMethodSet = [areaFunc 9]\<rparr>"

definition squareObj :: GoObject where
  "squareObj = \<lparr>o_name = ''Square'', o_filename = shapesFile, o_line = 12, o_isNamed = True,
                o_underlying = Struct [(False, ''float64'')], o_methodSet = [areaFunc 14],
                o_ptrMethodSet = [areaFunc 14]\<rparr>"

definition shapesPkg :: GoPackage where
  "shapesPkg = \<lparr>pkgPath = ''shapes/geometry'', pkgErrors = [],
                pkgScope = [(''Shape'', shapeObj), (''Any'', anyObj),
                            (''Square'', squareObj), (''Circle'', circleObj)]\<rparr>"

text \<open>A package that failed to type-check.\<close>

definition brokenPkg :: GoPackage where
  "brokenPkg = \<lparr>pkgPath = ''shapes/broken'', pkgErrors = [''undefined: x''],
                pkgScope = [(''Shape'', shapeObj)]\<rparr>"

text \<open>The records the analyzer should write for that package.\<close>

definition shapesPos :: "int \<Rightarrow> Position" where
  "shapesPos l = \<lparr>path = ''shapes/geometry/shapes.go'', line = l\<rparr>"

definition areaInfo :: "int \<Rightarrow> Declaration list \<Rightarrow> MethodInfo" where
  "areaInfo l ds = \<lparr>m_name = ''Area'', m_position = shapesPos l, parameters = [],
                    returnTypes = [''float64''], implementedFrom = ds\<rparr>"

definition shapeInfo :: InterfaceInfo where
  "shapeInfo = \<lparr>i_name = ''Shape'', i_position = shapesPos 3, i_methods = [areaInfo 4 []]\<rparr>"

definition circleInfo :: "Declaration list \<Rightarrow> Declaration list \<Rightarrow> StructInfo" where
  "circleInfo is ds = \<lparr>s_name = ''Circle'', s_position = shapesPos 7, s_methods = [areaInfo 9 ds],
                       embeddedTypes = [], implementedInterfaces = is\<rparr>"

definition squareInfo :: "Declaration list \<Rightarrow> Declaration list \<Rightarrow> StructInfo" where
  "squareInfo is ds = \<lparr>s_name = ''Square'', s_position = shapesPos 12, s_methods = [areaInfo 14 ds],
                       embeddedTypes = [], implementedInterfaces = is\<rparr>"

text \<open>A file below a directory whose name holds a backslash, which only Windows forbids.\<close>

definition backslashFile :: string where
  "backslashFile = ''/home/u/my'' @ [CHR 0x5C] @ ''proj/main.go''"

text \<open>Analyzer outputs without the \<open>structs\<close> array, and with \<open>interfaces\<close> a string.\<close>

definition noStructsOutput :: json where
  "noStructsOutput = JObject [(''interfaces'', JArray [])]"

definition stringInterfacesOutput :: json where
  "stringInterfacesOutput = JObject [(''interfaces'', JString ''none''), (''structs'', JArray [])]"

definition shapeDecl :: Declaration where
  "shapeDecl = \<lparr>decl_name = ''Shape'', decl_position = shapesPos 3\<rparr>"

definition shapeAreaDecl :: "int \<Rightarrow> Declaration" where
  "shapeAreaDecl l = \<lparr>decl_name = ''Shape.Area'', decl_position = shapesPos l\<rparr>"

text \<open>The signatures of the wildcard examples.\<close>

definition getMethod :: "string \<Rightarrow> string \<Rightarrow> MethodInfo" where
  "getMethod k v = \<lparr>m_name = ''Get'', m_position = \<lparr>path = ''store.go'', line = 1\<rparr>,
                    parameters = [\<lparr>param_name = ''key'', param_type = k\<rparr>],
                    returnTypes = [v], implementedFrom = []\<rparr>"

text \<open>The struct of the merge example: \<open>Name() string\<close> on the value receiver, and
  \<open>Name() string\<close> and \<open>SetName(n string)\<close> on the pointer receiver.\<close>

definition nameFunc :: "int \<Rightarrow> GoFunc" where
  "nameFunc l = \<lparr>f_name = ''Name'', f_filename = ''user.go'', f_line = l,
                 f_params = [], f_results = [''string'']\<rparr>"

definition setNameFunc :: GoFunc where
  "setNameFunc = \<lparr>f_name = ''SetName'', f_filename = ''user.go'', f_line = 8,
                  f_params = [(''n'', ''string'')], f_results = []\<rparr>"

definition userObj :: GoObject where
  "userObj = \<lparr>o_name = ''User'', o_filename = ''user.go'', o_line = 3, o_isNamed = True,
              o_underlying = Struct [(False, ''string'')], o_methodSet = [nameFunc 5],
              o_ptrMethodSet = [nameFunc 5, setNameFunc]\<rparr>"

section \<open>Lemmas\<close>

lemma range_step:
  "i < n \<Longrightarrow> (\<forall>j. i \<le> j \<and> j < n \<longrightarrow> P j) = (P i \<and> (\<forall>j. i + 1 \<le> j \<and> j < (n::nat) \<longrightarrow> P j))"
proof
  assume "i < n" and all: "\<forall>j. i \<le> j \<and> j < n \<longrightarrow> P j"
  then show "P i \<and> (\<forall>j. i + 1 \<le> j \<and> j < n \<longrightarrow> P j)" by auto
next
  assume "i < n" and r: "P i \<and> (\<forall>j. i + 1 \<le> j \<and> j < n \<longrightarrow> P j)"
  show "\<forall>j. i \<le> j \<and> j < n \<longrightarrow> P j"
  proof (intro allI impI)
    fix j assume j: "i \<le> j \<and> j < n"
    show "P j"
    proof (cases "j = i")
      case True
      then show ?thesis using r by simp
    next
      case False
      then have "i + 1 \<le> j" using j by simp
      then show ?thesis using r j by blast
    qed
  qed
qed

lemma parametersLoop_iff:
  "parametersLoop sps ips i =
     (\<forall>j. i \<le> j \<and> j < length sps \<longrightarrow>
        isTypeParameter (param_type (ips ! j)) \<or> param_type (sps ! j) = param_type (ips ! j))"
proof (induction sps ips i rule: parametersLoop.induct)
  case (1 sps ips i)
  show ?case
  proof (cases "i < length sps")
    case False
    then show ?thesis by (subst parametersLoop.simps) auto
  next
    case True
    show ?thesis
      using True 1
      by (subst parametersLoop.simps, subst range_step [OF True]) auto
  qed
qed

lemma returnTypesLoop_iff:
  "returnTypesLoop srs irs i =
     (\<forall>j. i \<le> j \<and> j < length srs \<longrightarrow> isTypeParameter (irs ! j) \<or> srs ! j = irs ! j)"
proof (induction srs irs i rule: returnTypesLoop.induct)
  case (1 srs irs i)
  show ?case
  proof (cases "i < length srs")
    case False
    then show ?thesis by (subst returnTypesLoop.simps) auto
  next
    case True
    show ?thesis
      using True 1
      by (subst returnTypesLoop.simps, subst range_step [OF True]) auto
  qed
qed

lemma isTypeParameter_iff:
  "isTypeParameter t = (\<exists>c. t = [c] \<and> CHR ''A'' \<le> c \<and> c \<le> CHR ''Z'')"
  by (auto simp: isTypeParameter_def split: list.splits)

lemma upper_letters:
  "list_all (\<lambda>n. char_of n \<in> set ''ABCDEFGHIJKLMNOPQRSTUVWXYZ'') [65..<91::nat]"
  by code_simp

lemma upper_iff:
  "(CHR ''A'' \<le> c \<and> c \<le> CHR ''Z'') = (c \<in> set ''ABCDEFGHIJKLMNOPQRSTUVWXYZ'')"
proof
  assume "c \<in> set ''ABCDEFGHIJKLMNOPQRSTUVWXYZ''"
  then show "CHR ''A'' \<le> c \<and> c \<le> CHR ''Z''"
    by (auto simp: less_eq_char_def)
next
  assume a: "CHR ''A'' \<le> c \<and> c \<le> CHR ''Z''"
  then have "65 \<le> (of_char c :: nat) \<and> (of_char c :: nat) < 91"
    by (simp add: less_eq_char_def)
  then have "(of_char c :: nat) \<in> {65..<91}"
    by (simp only: atLeastLessThan_iff)
  then have "(of_char c :: nat) \<in> set [65..<91]"
    by (simp only: set_upt)
  then have "char_of (of_char c :: nat) \<in> set ''ABCDEFGHIJKLMNOPQRSTUVWXYZ''"
    using upper_letters unfolding list_all_iff by blast
  then show "c \<in> set ''ABCDEFGHIJKLMNOPQRSTUVWXYZ''"
    by simp
qed

lemma isTypeParameter_letters:
  "isTypeParameter t = (\<exists>c \<in> set ''ABCDEFGHIJKLMNOPQRSTUVWXYZ''. t = [c])"
  unfolding isTypeParameter_iff upper_iff by blast

lemma methodsMatch_iff:
  "methodsMatch candidate target =
     (m_name candidate = m_name target \<and>
      length (parameters candidate) = length (parameters target) \<and>
      length (returnTypes candidate) = length (returnTypes target) \<and>
      (\<forall>i < length (parameters target).
          param_type (parameters candidate ! i) = param_type (parameters target ! i) \<or>
          isTypeParameter (param_type (parameters target ! i))) \<and>
      (\<forall>i < length (returnTypes target).
          returnTypes candidate ! i = returnTypes target ! i \<or>
          isTypeParameter (returnTypes target ! i)))"
  by (auto simp: methodsMatch_def parametersLoop_iff returnTypesLoop_iff)

section \<open>The signature matcher\<close>

text \<open>
  Claim C3. \<^verbatim>\<open>methodsMatch(candidate, target)\<close> is true exactly when the names are equal,
  the parameter counts are equal, the return-type counts are equal, and at every parameter
  position and every return-type position the candidate's type text equals the target's or
  the target's text is one letter from \<open>A\<close> to \<open>Z\<close>. The struct method
  \<open>Get(key: string) -> int\<close> matches the interface method \<open>Get(key: K) -> V\<close>, and
  \<open>Get(key: int) -> int\<close> does not match \<open>Get(key: string) -> int\<close>.
\<close>

theorem methodsMatch_spec:
  "(methodsMatch candidate target \<longleftrightarrow>
      m_name candidate = m_name target \<and>
      length (parameters candidate) = length (parameters target) \<and>
      length (returnTypes candidate) = length (returnTypes target) \<and>
      (\<forall>i < length (parameters target).
          param_type (parameters candidate ! i) = param_type (parameters target ! i) \<or>
          (\<exists>c \<in> set ''ABCDEFGHIJKLMNOPQRSTUVWXYZ''. param_type (parameters target ! i) = [c])) \<and>
      (\<forall>i < length (returnTypes target).
          returnTypes candidate ! i = returnTypes target ! i \<or>
          (\<exists>c \<in> set ''ABCDEFGHIJKLMNOPQRSTUVWXYZ''. returnTypes target ! i = [c])))
   \<and> methodsMatch (getMethod ''string'' ''int'') (getMethod ''K'' ''V'')
   \<and> \<not> methodsMatch (getMethod ''int'' ''int'') (getMethod ''string'' ''int'')"
proof (intro conjI)
  show "methodsMatch (getMethod ''string'' ''int'') (getMethod ''K'' ''V'')"
    by (simp add: methodsMatch_iff isTypeParameter_letters getMethod_def)
  show "\<not> methodsMatch (getMethod ''int'' ''int'') (getMethod ''string'' ''int'')"
    by (simp add: methodsMatch_iff isTypeParameter_letters getMethod_def)
  show "methodsMatch candidate target \<longleftrightarrow>
      m_name candidate = m_name target \<and>
      length (parameters candidate) = length (parameters target) \<and>
      length (returnTypes candidate) = length (returnTypes target) \<and>
      (\<forall>i < length (parameters target).
          param_type (parameters candidate ! i) = param_type (parameters target ! i) \<or>
          (\<exists>c \<in> set ''ABCDEFGHIJKLMNOPQRSTUVWXYZ''. param_type (parameters target ! i) = [c])) \<and>
      (\<forall>i < length (returnTypes target).
          returnTypes candidate ! i = returnTypes target ! i \<or>
          (\<exists>c \<in> set ''ABCDEFGHIJKLMNOPQRSTUVWXYZ''. returnTypes target ! i = [c]))"
    unfolding methodsMatch_iff isTypeParameter_letters by (rule refl)
qed

theorem methodsMatch_spec_witness:
  "methodsMatch (getMethod ''string'' ''bool'') (getMethod ''T'' ''bool'')
   \<and> \<not> methodsMatch (getMethod ''string'' ''bool'') (getMethod ''TT'' ''bool'')"
  using methodsMatch_spec [of "getMethod ''string'' ''bool''" "getMethod ''T'' ''bool''"]
        methodsMatch_spec [of "getMethod ''string'' ''bool''" "getMethod ''TT'' ''bool''"]
  by (simp add: getMethod_def)

section \<open>The implementation check\<close>

lemma implementsLoop_iff:
  "implementsLoop struct ims =
     (\<forall>M \<in> set ims. \<exists>m \<in> set (s_methods struct). methodsMatch m M)"
proof (induction ims)
  case Nil
  then show ?case by simp
next
  case (Cons M ims)
  show ?case
  proof (cases "matchingMethod struct M")
    case None
    then have "\<not> (\<exists>m \<in> set (s_methods struct). methodsMatch m M)"
      by (simp add: matchingMethod_def find_None_iff)
    with None show ?thesis by simp
  next
    case (Some m)
    then have "\<exists>m \<in> set (s_methods struct). methodsMatch m M"
      by (auto simp: matchingMethod_def find_Some_iff)
    with Some Cons show ?thesis by simp
  qed
qed

lemma updateMethod_fields [simp]:
  "m_name (updateMethod iface m) = m_name m"
  "parameters (updateMethod iface m) = parameters m"
  "returnTypes (updateMethod iface m) = returnTypes m"
  "m_position (updateMethod iface m) = m_position m"
  unfolding updateMethod_def by (cases "find (methodsMatch m) (i_methods iface)"; simp)+

lemma methodsMatch_updateMethod [simp]:
  "methodsMatch (updateMethod iface m) M = methodsMatch m M"
  unfolding methodsMatch_def by simp

lemma implementsInterface_checkInterface [simp]:
  "implementsInterface (checkInterface iface s) = implementsInterface s"
  by (rule ext) (simp add: implementsInterface_def implementsLoop_iff checkInterface_def)

lemma implementsInterface_reset [simp]:
  "implementsInterface (s\<lparr>implementedInterfaces := ds\<rparr>) = implementsInterface s"
  by (rule ext) (simp add: implementsInterface_def implementsLoop_iff)

lemma implementedInterfaces_fold:
  "implementedInterfaces (fold checkInterface ifaces s) =
     implementedInterfaces s @
       map (\<lambda>I. \<lparr>decl_name = i_name I, decl_position = i_position I\<rparr>)
           (filter (implementsInterface s) ifaces)"
proof (induction ifaces arbitrary: s)
  case Nil
  then show ?case by simp
next
  case (Cons I ifaces)
  show ?case
    by (simp add: Cons.IH) (simp add: checkInterface_def)
qed


lemma matchingMethod_first:
  "matchingMethod S M = Some m \<longleftrightarrow>
        (\<exists>k < length (s_methods S). s_methods S ! k = m \<and> methodsMatch m M
            \<and> (\<forall>j < k. \<not> methodsMatch (s_methods S ! j) M))"
  unfolding matchingMethod_def find_Some_iff by auto

lemma areaMatch: "methodsMatch (areaInfo l ds) (areaInfo l' ds')"
  by (simp add: methodsMatch_iff areaInfo_def)

text \<open>
  Claim C4. A struct is judged to implement an interface exactly when every method of the
  interface has, among the struct's methods, one that \<^verbatim>\<open>methodsMatch\<close> accepts; the
  candidate the search returns is the earliest struct method that matches; and the
  post-processing records exactly the interfaces so judged, in their order.
\<close>

theorem implementsInterface_spec:
  "(implementsInterface S I \<longleftrightarrow>
      (\<forall>M \<in> set (i_methods I). \<exists>m \<in> set (s_methods S). methodsMatch m M))
   \<and> (matchingMethod S M = Some m \<longleftrightarrow>
        (\<exists>k < length (s_methods S). s_methods S ! k = m \<and> methodsMatch m M
            \<and> (\<forall>j < k. \<not> methodsMatch (s_methods S ! j) M)))
   \<and> implementedInterfaces (postProcessStruct ifaces S) =
        map (\<lambda>I. \<lparr>decl_name = i_name I, decl_position = i_position I\<rparr>)
            (filter (implementsInterface S) ifaces)"
proof -
  have a: "implementsInterface S I \<longleftrightarrow>
      (\<forall>M \<in> set (i_methods I). \<exists>m \<in> set (s_methods S). methodsMatch m M)"
    by (simp add: implementsInterface_def implementsLoop_iff)
  have c: "implementedInterfaces (postProcessStruct ifaces S) =
        map (\<lambda>I. \<lparr>decl_name = i_name I, decl_position = i_position I\<rparr>)
            (filter (implementsInterface S) ifaces)"
    by (simp add: postProcessStruct_def implementedInterfaces_fold)
  from a matchingMethod_first [of S M m] c show ?thesis by (intro conjI)
qed

theorem implementsInterface_spec_witness:
  "implementsInterface (circleInfo [] []) shapeInfo
   \<and> matchingMethod (circleInfo [] []) (areaInfo 4 []) = Some (areaInfo 9 [])
   \<and> implementedInterfaces (postProcessStruct [shapeInfo] (circleInfo [] [])) =
        [\<lparr>decl_name = ''Shape'', decl_position = shapesPos 3\<rparr>]"
proof -
  note t = implementsInterface_spec [of "circleInfo [] []" shapeInfo "areaInfo 4 []" "areaInfo 9 []" "[shapeInfo]"]
  have 1: "implementsInterface (circleInfo [] []) shapeInfo"
    using t by (simp add: circleInfo_def shapeInfo_def areaMatch)
  have 2: "matchingMethod (circleInfo [] []) (areaInfo 4 []) = Some (areaInfo 9 [])"
    by (simp add: matchingMethod_def circleInfo_def areaMatch)
  have 3: "implementedInterfaces (postProcessStruct [shapeInfo] (circleInfo [] [])) =
        [\<lparr>decl_name = ''Shape'', decl_position = shapesPos 3\<rparr>]"
    using t 1 by (simp add: shapeInfo_def)
  from 1 2 3 show ?thesis by (intro conjI)
qed

section \<open>The method set of a struct\<close>

lemma methodInfo_name [simp]: "m_name (methodInfo os f) = f_name f"
  by (simp add: methodInfo_def)

lemma list_ex_name:
  "list_ex (\<lambda>existingMethod. m_name existingMethod = n) ms = (n \<in> set (map m_name ms))"
  by (auto simp: list_ex_iff)

lemma processMethodSet_names:
  "set (map m_name (processMethodSet os fs acc)) = set (map m_name acc) \<union> set (map f_name fs)"
proof (induction fs arbitrary: acc)
  case Nil
  then show ?case by simp
next
  case (Cons f fs)
  show ?case
    by (auto simp: Cons.IH list_ex_name simp del: set_map)
qed

lemma processMethodSet_distinct:
  "distinct (map m_name acc) \<Longrightarrow> distinct (map m_name (processMethodSet os fs acc))"
proof (induction fs arbitrary: acc)
  case Nil
  then show ?case by simp
next
  case (Cons f fs)
  show ?case
  proof (cases "f_name f \<in> set (map m_name acc)")
    case True
    then show ?thesis using Cons by (simp add: list_ex_name del: set_map)
  next
    case False
    then have "distinct (map m_name (acc @ [methodInfo os f]))"
      using Cons.prems by simp
    then have "distinct (map m_name (processMethodSet os fs (acc @ [methodInfo os f])))"
      by (rule Cons.IH)
    then show ?thesis using False by (simp add: list_ex_name del: set_map)
  qed
qed

lemma processMethodSet_prefix:
  "\<exists>ext. processMethodSet os fs acc = acc @ ext"
proof (induction fs arbitrary: acc)
  case Nil
  then show ?case by simp
next
  case (Cons f fs)
  show ?case
  proof (cases "list_ex (\<lambda>existingMethod. m_name existingMethod = f_name f) acc")
    case True
    then show ?thesis using Cons.IH [of acc] by simp
  next
    case False
    obtain ext where "processMethodSet os fs (acc @ [methodInfo os f]) = (acc @ [methodInfo os f]) @ ext"
      using Cons.IH [of "acc @ [methodInfo os f]"] by blast
    then show ?thesis using False by simp
  qed
qed

lemma find_name_append:
  "find (\<lambda>m. m_name m = n) (xs @ ys) =
     (case find (\<lambda>m. m_name m = n) xs of Some m \<Rightarrow> Some m | None \<Rightarrow> find (\<lambda>m. m_name m = n) ys)"
  by (induction xs) auto

lemma find_name_None: "(find (\<lambda>m. m_name m = n) xs = None) = (n \<notin> set (map m_name xs))"
  by (auto simp: find_None_iff)

lemma processMethodSet_find:
  "find (\<lambda>m. m_name m = n) (processMethodSet os fs acc) =
     (case find (\<lambda>m. m_name m = n) acc of
        Some m \<Rightarrow> Some m
      | None \<Rightarrow> map_option (methodInfo os) (find (\<lambda>f. f_name f = n) fs))"
proof (induction fs arbitrary: acc)
  case Nil
  then show ?case by (simp split: option.splits)
next
  case (Cons f fs)
  show ?case
  proof (cases "f_name f \<in> set (map m_name acc)")
    case True
    then have ex: "list_ex (\<lambda>existingMethod. m_name existingMethod = f_name f) acc"
      by (simp add: list_ex_name del: set_map)
    show ?thesis
    proof (cases "find (\<lambda>m. m_name m = n) acc")
      case None
      then have "n \<noteq> f_name f" using True find_name_None [of n acc] by auto
      then show ?thesis using ex None Cons.IH [of acc] by simp
    next
      case (Some m)
      then show ?thesis using ex Cons.IH [of acc] by simp
    qed
  next
    case False
    then have ex: "\<not> list_ex (\<lambda>existingMethod. m_name existingMethod = f_name f) acc"
      by (simp add: list_ex_name del: set_map)
    show ?thesis
      using ex Cons.IH [of "acc @ [methodInfo os f]"]
      by (auto simp: find_name_append split: option.splits)
  qed
qed


lemma updateImplementedFrom_name [simp]:
  "m_name (updateImplementedFrom iface ims m) = m_name m"
  by (induction ims arbitrary: m) auto

lemma checkImplements_names [simp]:
  "map m_name (s_methods (checkImplements implements pkg obj iface info)) = map m_name (s_methods info)"
  by (simp add: checkImplements_def comp_def split: option.splits GoUnderlying.splits)

lemma fold_checkImplements_names:
  "map m_name (s_methods (fold (checkImplements implements pkg obj) ifaces info)) = map m_name (s_methods info)"
  by (induction ifaces arbitrary: info) simp_all

lemma processStruct_names:
  "processStruct os implements obj pkg allInterfaces = Some info \<Longrightarrow>
     map m_name (s_methods info) = map m_name (structMethods os obj)"
  by (auto simp: processStruct_def fold_checkImplements_names split: if_splits GoUnderlying.splits)

lemma structMethods_userObj:
  "structMethods os userObj = [methodInfo os (nameFunc 5), methodInfo os setNameFunc]"
  by (simp add: structMethods_def userObj_def nameFunc_def setNameFunc_def)

text \<open>
  Claim C6. The method list built for a struct has no two methods of the same name. The
  value-receiver set is processed first, so the list starts with its methods; the names of
  the list are those of the two sets; for a name of the value-receiver set the entry is
  the one built from that set, and a method found only in the pointer-receiver set has its
  entry too. The list that \<^verbatim>\<open>processStruct\<close> returns has these names. For the value
  method \<open>Name\<close> and the pointer methods \<open>Name\<close> and \<open>SetName\<close> the list is \<open>Name\<close>,
  \<open>SetName\<close>.
\<close>

theorem structMethods_spec:
  "distinct (map m_name (structMethods os obj))
   \<and> (\<exists>ext. structMethods os obj = processMethodSet os (o_methodSet obj) [] @ ext)
   \<and> set (map m_name (structMethods os obj)) =
       set (map f_name (o_methodSet obj)) \<union> set (map f_name (o_ptrMethodSet obj))
   \<and> (\<forall>v \<in> set (o_methodSet obj).
         find (\<lambda>m. m_name m = f_name v) (structMethods os obj) =
           map_option (methodInfo os) (find (\<lambda>f. f_name f = f_name v) (o_methodSet obj)))
   \<and> (\<forall>p \<in> set (o_ptrMethodSet obj). f_name p \<notin> set (map f_name (o_methodSet obj)) \<longrightarrow>
         find (\<lambda>m. m_name m = f_name p) (structMethods os obj) =
           map_option (methodInfo os) (find (\<lambda>f. f_name f = f_name p) (o_ptrMethodSet obj)))
   \<and> (processStruct os implements obj pkg allInterfaces = Some info \<longrightarrow>
         map m_name (s_methods info) = map m_name (structMethods os obj))
   \<and> map m_name (structMethods os userObj) = [''Name'', ''SetName'']"
proof -
  have d: "distinct (map m_name (structMethods os obj))"
    unfolding structMethods_def by (intro processMethodSet_distinct) simp
  have e: "\<exists>ext. structMethods os obj = processMethodSet os (o_methodSet obj) [] @ ext"
    unfolding structMethods_def by (rule processMethodSet_prefix)
  have n: "set (map m_name (structMethods os obj)) =
       set (map f_name (o_methodSet obj)) \<union> set (map f_name (o_ptrMethodSet obj))"
    unfolding structMethods_def processMethodSet_names by simp
  have v: "\<forall>v \<in> set (o_methodSet obj).
         find (\<lambda>m. m_name m = f_name v) (structMethods os obj) =
           map_option (methodInfo os) (find (\<lambda>f. f_name f = f_name v) (o_methodSet obj))"
  proof
    fix v assume "v \<in> set (o_methodSet obj)"
    then have "find (\<lambda>f. f_name f = f_name v) (o_methodSet obj) \<noteq> None"
      by (auto simp: find_None_iff)
    then show "find (\<lambda>m. m_name m = f_name v) (structMethods os obj) =
           map_option (methodInfo os) (find (\<lambda>f. f_name f = f_name v) (o_methodSet obj))"
      unfolding structMethods_def processMethodSet_find by auto
  qed
  have p: "\<forall>p \<in> set (o_ptrMethodSet obj). f_name p \<notin> set (map f_name (o_methodSet obj)) \<longrightarrow>
         find (\<lambda>m. m_name m = f_name p) (structMethods os obj) =
           map_option (methodInfo os) (find (\<lambda>f. f_name f = f_name p) (o_ptrMethodSet obj))"
  proof (intro ballI impI)
    fix p assume "p \<in> set (o_ptrMethodSet obj)" and "f_name p \<notin> set (map f_name (o_methodSet obj))"
    then have "find (\<lambda>f. f_name f = f_name p) (o_methodSet obj) = None"
      unfolding find_None_iff by (metis image_eqI set_map)
    then show "find (\<lambda>m. m_name m = f_name p) (structMethods os obj) =
           map_option (methodInfo os) (find (\<lambda>f. f_name f = f_name p) (o_ptrMethodSet obj))"
      unfolding structMethods_def processMethodSet_find by simp
  qed
  have s: "processStruct os implements obj pkg allInterfaces = Some info \<longrightarrow>
         map m_name (s_methods info) = map m_name (structMethods os obj)"
    using processStruct_names by blast
  have x: "map m_name (structMethods os userObj) = [''Name'', ''SetName'']"
    by (simp add: structMethods_userObj) (simp add: nameFunc_def setNameFunc_def)
  from d e n v p s x show ?thesis by (intro conjI)
qed


theorem structMethods_spec_witness:
  "distinct (map m_name (structMethods Unix userObj))
   \<and> find (\<lambda>m. m_name m = ''Name'') (structMethods Unix userObj) = Some (methodInfo Unix (nameFunc 5))
   \<and> find (\<lambda>m. m_name m = ''SetName'') (structMethods Unix userObj) = Some (methodInfo Unix setNameFunc)
   \<and> map m_name (structMethods Unix userObj) = [''Name'', ''SetName'']"
proof -
  note t = structMethods_spec [of Unix userObj]
  have v: "nameFunc 5 \<in> set (o_methodSet userObj)"
    by (simp add: userObj_def)
  have p: "setNameFunc \<in> set (o_ptrMethodSet userObj)
             \<and> f_name setNameFunc \<notin> set (map f_name (o_methodSet userObj))"
    by (simp add: userObj_def setNameFunc_def nameFunc_def)
  have 1: "distinct (map m_name (structMethods Unix userObj))"
    using t by (rule conjunct1)
  have "find (\<lambda>m. m_name m = f_name (nameFunc 5)) (structMethods Unix userObj) =
          map_option (methodInfo Unix) (find (\<lambda>f. f_name f = f_name (nameFunc 5)) (o_methodSet userObj))"
    using t v by blast
  then have 2: "find (\<lambda>m. m_name m = ''Name'') (structMethods Unix userObj) = Some (methodInfo Unix (nameFunc 5))"
    by (simp add: userObj_def nameFunc_def)
  have "find (\<lambda>m. m_name m = f_name setNameFunc) (structMethods Unix userObj) =
          map_option (methodInfo Unix) (find (\<lambda>f. f_name f = f_name setNameFunc) (o_ptrMethodSet userObj))"
    using t p by blast
  then have 3: "find (\<lambda>m. m_name m = ''SetName'') (structMethods Unix userObj) = Some (methodInfo Unix setNameFunc)"
    by (simp add: userObj_def nameFunc_def setNameFunc_def)
  have 4: "map m_name (structMethods Unix userObj) = [''Name'', ''SetName'']"
    using t by blast
  from 1 2 3 4 show ?thesis by (intro conjI)
qed

section \<open>The pass of the Go analyzer\<close>

lemma fold_processPackage:
  "fold (processPackage os implements) pkgs st =
     (fold (\<lambda>pkg. fold (processName os implements pkg) (Names (pkgScope pkg)))
           (filter (\<lambda>pkg. pkgErrors pkg = []) pkgs) (fst st),
      snd st @ concat (map (\<lambda>pkg. map (PackageError (pkgPath pkg)) (pkgErrors pkg)) pkgs))"
proof (induction pkgs arbitrary: st)
  case Nil
  then show ?case by simp
next
  case (Cons pkg pkgs)
  show ?case
  proof (cases "pkgErrors pkg = []")
    case True
    then have "processPackage os implements pkg st =
                 (fold (processName os implements pkg) (Names (pkgScope pkg)) (fst st), snd st)"
      by (simp add: processPackage_def)
    then show ?thesis using True by (simp add: Cons.IH)
  next
    case False
    then have "processPackage os implements pkg st =
                 (fst st, snd st @ map (PackageError (pkgPath pkg)) (pkgErrors pkg))"
      by (simp add: processPackage_def)
    then show ?thesis using False by (simp add: Cons.IH)
  qed
qed

text \<open>
  Claim C7. A package that failed to type-check is skipped: the result of the pass is the
  result over the packages without errors, in their order, and the log holds one line for
  each error of each package. The pass is a total function: it returns for every list of
  packages.
\<close>

theorem analyze_skips_failed_packages:
  "fst (analyze os implements (Inr pkgs)) =
     fst (analyze os implements (Inr (filter (\<lambda>pkg. pkgErrors pkg = []) pkgs)))
   \<and> snd (analyze os implements (Inr pkgs)) =
       concat (map (\<lambda>pkg. map (PackageError (pkgPath pkg)) (pkgErrors pkg)) pkgs)"
  by (simp add: analyze_def fold_processPackage)

lemma processInterface_methods:
  "processInterface os obj = Some iface \<Longrightarrow> o_underlying obj = Interface methods \<Longrightarrow>
     i_methods iface = map (methodInfo os) methods"
  by (auto simp: processInterface_def)

lemma processName_interfaces:
  assumes "\<forall>iface \<in> set (interfaces result). i_methods iface \<noteq> []"
  shows "\<forall>iface \<in> set (interfaces (processName os implements pkg n result)). i_methods iface \<noteq> []"
proof (cases "Lookup (pkgScope pkg) n")
  case None
  then show ?thesis using assms by (simp add: processName_def)
next
  case (Some obj)
  show ?thesis
  proof (cases "o_underlying obj")
    case (Interface methods)
    show ?thesis
    proof (cases "processInterface os obj")
      case None
      then show ?thesis using assms Some Interface by (simp add: processName_def)
    next
      case iface: (Some iface)
      have "methods \<noteq> [] \<Longrightarrow> i_methods iface \<noteq> []"
        using processInterface_methods [OF iface Interface] by simp
      then show ?thesis using assms Some Interface iface by (auto simp: processName_def)
    qed
  next
    case (Struct flds)
    then show ?thesis using assms Some by (simp add: processName_def split: option.splits)
  next
    case OtherType
    then show ?thesis using assms Some by (simp add: processName_def)
  qed
qed

lemma fold_processName_interfaces:
  "\<forall>iface \<in> set (interfaces result). i_methods iface \<noteq> [] \<Longrightarrow>
   \<forall>iface \<in> set (interfaces (fold (processName os implements pkg) ns result)). i_methods iface \<noteq> []"
proof (induction ns arbitrary: result)
  case Nil
  then show ?case by simp
next
  case (Cons n ns)
  from Cons.prems have "\<forall>iface \<in> set (interfaces (processName os implements pkg n result)). i_methods iface \<noteq> []"
    by (rule processName_interfaces)
  then show ?case using Cons.IH by simp
qed

lemma fold_packages_interfaces:
  "\<forall>iface \<in> set (interfaces result). i_methods iface \<noteq> [] \<Longrightarrow>
   \<forall>iface \<in> set (interfaces (fold (\<lambda>pkg. fold (processName os implements pkg) (Names (pkgScope pkg))) pkgs result)).
      i_methods iface \<noteq> []"
proof (induction pkgs arbitrary: result)
  case Nil
  then show ?case by simp
next
  case (Cons pkg pkgs)
  from Cons.prems have "\<forall>iface \<in> set (interfaces (fold (processName os implements pkg) (Names (pkgScope pkg)) result)).
      i_methods iface \<noteq> []"
    by (rule fold_processName_interfaces)
  then show ?case using Cons.IH by simp
qed

text \<open>
  Claim C9. Every interface the pass records has at least one method, and the
  post-processing keeps the recorded interfaces as they are; an object whose underlying
  type is the interface without methods leaves the result as it was.
\<close>

theorem analyze_records_no_empty_interface:
  "(\<forall>iface \<in> set (interfaces (fst (analyze os implements loaded))). length (i_methods iface) \<ge> 1)
   \<and> interfaces (postProcess (fst (analyze os implements loaded))) =
       interfaces (fst (analyze os implements loaded))
   \<and> (Lookup (pkgScope pkg) n = Some obj \<and> o_underlying obj = Interface [] \<longrightarrow>
        processName os implements pkg n result = result)"
proof (intro conjI)
  show "interfaces (postProcess (fst (analyze os implements loaded))) =
       interfaces (fst (analyze os implements loaded))"
    by (simp add: postProcess_def)
  show "\<forall>iface \<in> set (interfaces (fst (analyze os implements loaded))). length (i_methods iface) \<ge> 1"
  proof (cases loaded)
    case (Inl err)
    then show ?thesis by (simp add: analyze_def)
  next
    case (Inr pkgs)
    have "\<forall>iface \<in> set (interfaces (fold (\<lambda>pkg. fold (processName os implements pkg) (Names (pkgScope pkg)))
              (filter (\<lambda>pkg. pkgErrors pkg = []) pkgs) \<lparr>interfaces = [], structs = []\<rparr>)).
            i_methods iface \<noteq> []"
      by (rule fold_packages_interfaces) simp
    then show ?thesis using Inr
      by (simp add: analyze_def fold_processPackage Suc_le_eq)
  qed
  show "Lookup (pkgScope pkg) n = Some obj \<and> o_underlying obj = Interface [] \<longrightarrow>
        processName os implements pkg n result = result"
    by (simp add: processName_def)
qed


lemma analyze_shapes:
  "analyze Unix methodSetImplements (Inr [shapesPkg]) =
     (\<lparr>interfaces = [shapeInfo],
       structs = [circleInfo [] [], squareInfo [shapeDecl] [shapeAreaDecl 4]]\<rparr>, [])"
  by code_simp

lemma postProcess_shapes:
  "postProcess \<lparr>interfaces = [shapeInfo],
                 structs = [circleInfo [] [], squareInfo [shapeDecl] [shapeAreaDecl 4]]\<rparr> =
     \<lparr>interfaces = [shapeInfo],
      structs = [circleInfo [shapeDecl] [shapeAreaDecl 3],
                 squareInfo [shapeDecl] [shapeAreaDecl 4, shapeAreaDecl 3]]\<rparr>"
  by code_simp

lemma postProcess_shapes_again:
  "postProcess \<lparr>interfaces = [shapeInfo],
      structs = [circleInfo [shapeDecl] [shapeAreaDecl 3],
                 squareInfo [shapeDecl] [shapeAreaDecl 4, shapeAreaDecl 3]]\<rparr> =
     \<lparr>interfaces = [shapeInfo],
      structs = [circleInfo [shapeDecl] [shapeAreaDecl 3, shapeAreaDecl 3],
                 squareInfo [shapeDecl] [shapeAreaDecl 4, shapeAreaDecl 3, shapeAreaDecl 3]]\<rparr>"
  by code_simp

lemma implements_circle: "methodSetImplements (Named circleObj) [areaFunc 4]"
  by code_simp

lemma processStruct_square:
  "processStruct Unix methodSetImplements squareObj shapesPkg [shapeInfo] =
     Some (squareInfo [shapeDecl] [shapeAreaDecl 4])"
  by code_simp

lemma processStruct_circle_all:
  "processStruct Unix methodSetImplements circleObj shapesPkg [shapeInfo] =
     Some (circleInfo [shapeDecl] [shapeAreaDecl 4])"
  by code_simp

lemma postProcess_circle:
  "postProcess \<lparr>interfaces = [shapeInfo], structs = [circleInfo [] []]\<rparr> =
     \<lparr>interfaces = [shapeInfo], structs = [circleInfo [shapeDecl] [shapeAreaDecl 3]]\<rparr>"
  by code_simp

theorem analyze_skips_failed_packages_witness:
  "analyze Unix methodSetImplements (Inr [brokenPkg, shapesPkg]) =
     (\<lparr>interfaces = [shapeInfo],
       structs = [circleInfo [] [], squareInfo [shapeDecl] [shapeAreaDecl 4]]\<rparr>,
      [PackageError ''shapes/broken'' ''undefined: x''])"
proof -
  have f: "filter (\<lambda>pkg. pkgErrors pkg = []) [brokenPkg, shapesPkg] = [shapesPkg]"
    by (simp add: brokenPkg_def shapesPkg_def)
  have l: "concat (map (\<lambda>pkg. map (PackageError (pkgPath pkg)) (pkgErrors pkg)) [brokenPkg, shapesPkg]) =
             [PackageError ''shapes/broken'' ''undefined: x'']"
    by (simp add: brokenPkg_def shapesPkg_def)
  show ?thesis
    using analyze_skips_failed_packages [of Unix methodSetImplements "[brokenPkg, shapesPkg]"]
    unfolding f l analyze_shapes by (simp add: prod_eq_iff)
qed

theorem analyze_records_no_empty_interface_witness:
  "interfaces (fst (analyze Unix methodSetImplements (Inr [shapesPkg]))) = [shapeInfo]
   \<and> length (i_methods shapeInfo) \<ge> 1
   \<and> processName Unix methodSetImplements shapesPkg ''Any'' \<lparr>interfaces = [], structs = []\<rparr> =
        \<lparr>interfaces = [], structs = []\<rparr>"
proof -
  note t = analyze_records_no_empty_interface
             [of Unix methodSetImplements "Inr [shapesPkg]" shapesPkg "''Any''" anyObj
                 "\<lparr>interfaces = [], structs = []\<rparr>"]
  have 1: "interfaces (fst (analyze Unix methodSetImplements (Inr [shapesPkg]))) = [shapeInfo]"
    by (simp add: analyze_shapes)
  have 2: "length (i_methods shapeInfo) \<ge> 1"
    using t unfolding 1 by simp
  have l: "Lookup (pkgScope shapesPkg) ''Any'' = Some anyObj \<and> o_underlying anyObj = Interface []"
    by (simp add: Lookup_def shapesPkg_def anyObj_def)
  have 3: "processName Unix methodSetImplements shapesPkg ''Any'' \<lparr>interfaces = [], structs = []\<rparr> =
        \<lparr>interfaces = [], structs = []\<rparr>"
    using t l by blast
  from 1 2 3 show ?thesis by (intro conjI)
qed

section \<open>Resolution order, repeated resolution and recorded positions\<close>

text \<open>
  Claim C1 asks that every struct be resolved against all interfaces of the program,
  whatever the order of the declarations. The pass visits the names of a scope in sorted
  order and hands \<^verbatim>\<open>processStruct\<close> the interfaces collected so far: \<open>Circle\<close> comes
  before \<open>Shape\<close> and is recorded with no interface, \<open>Square\<close> comes after it and is
  recorded with \<open>Shape\<close>, although the type checker finds that \<open>Circle\<close> implements
  \<open>Shape\<close> and \<^verbatim>\<open>processStruct\<close>, given the interface, records it.
\<close>

theorem analyze_resolves_against_earlier_interfaces:
  "fst (analyze Unix methodSetImplements (Inr [shapesPkg])) =
     \<lparr>interfaces = [shapeInfo],
      structs = [circleInfo [] [], squareInfo [shapeDecl] [shapeAreaDecl 4]]\<rparr>
   \<and> methodSetImplements (Named circleObj) [areaFunc 4]
   \<and> processStruct Unix methodSetImplements circleObj shapesPkg [shapeInfo] =
        Some (circleInfo [shapeDecl] [shapeAreaDecl 4])"
proof (intro conjI)
  show "fst (analyze Unix methodSetImplements (Inr [shapesPkg])) =
     \<lparr>interfaces = [shapeInfo],
      structs = [circleInfo [] [], squareInfo [shapeDecl] [shapeAreaDecl 4]]\<rparr>"
    by (simp add: analyze_shapes)
  show "methodSetImplements (Named circleObj) [areaFunc 4]"
    by (rule implements_circle)
  show "processStruct Unix methodSetImplements circleObj shapesPkg [shapeInfo] =
        Some (circleInfo [shapeDecl] [shapeAreaDecl 4])"
    by (rule processStruct_circle_all)
qed

text \<open>
  Claim C2 asks that a second run of the resolution change nothing. The post-processing
  empties \<open>implementedInterfaces\<close> before it fills it, but it appends to
  \<open>implementedFrom\<close> without emptying it: on the output of the Go pass for the sample
  package the method \<open>Area\<close> of \<open>Square\<close> gets a second entry \<open>Shape.Area\<close>, and a second
  run adds one more entry to each method.
\<close>

theorem postProcess_appends_again:
  "postProcess (fst (analyze Unix methodSetImplements (Inr [shapesPkg]))) =
     \<lparr>interfaces = [shapeInfo],
      structs = [circleInfo [shapeDecl] [shapeAreaDecl 3],
                 squareInfo [shapeDecl] [shapeAreaDecl 4, shapeAreaDecl 3]]\<rparr>
   \<and> postProcess (postProcess (fst (analyze Unix methodSetImplements (Inr [shapesPkg])))) =
     \<lparr>interfaces = [shapeInfo],
      structs = [circleInfo [shapeDecl] [shapeAreaDecl 3, shapeAreaDecl 3],
                 squareInfo [shapeDecl] [shapeAreaDecl 4, shapeAreaDecl 3, shapeAreaDecl 3]]\<rparr>"
  by (simp add: analyze_shapes postProcess_shapes postProcess_shapes_again)

text \<open>
  Claim C5 asks that the entry added to a method's \<open>implementedFrom\<close> carry the position
  of the interface method. The Go pass records it so (line 4, where \<open>Area\<close> is declared in
  \<open>Shape\<close>); the post-processing records the position of the interface (line 3).
\<close>

theorem postProcess_records_interface_position:
  "postProcess \<lparr>interfaces = [shapeInfo], structs = [circleInfo [] []]\<rparr> =
     \<lparr>interfaces = [shapeInfo], structs = [circleInfo [shapeDecl] [shapeAreaDecl 3]]\<rparr>
   \<and> decl_position (shapeAreaDecl 3) = i_position shapeInfo
   \<and> map m_position (i_methods shapeInfo) = [shapesPos 4]
   \<and> decl_position (shapeAreaDecl 3) \<noteq> shapesPos 4
   \<and> processStruct Unix methodSetImplements circleObj shapesPkg [shapeInfo] =
        Some (circleInfo [shapeDecl] [shapeAreaDecl 4])"
  by (simp add: postProcess_circle processStruct_circle_all)
     (simp add: shapeAreaDecl_def shapeInfo_def areaInfo_def shapesPos_def)

section \<open>Validation of the analyzer output\<close>

lemma isArray_iff: "isArray v = (\<exists>xs. v = Some (JArray xs))"
  by (cases v rule: isArray.cases) simp_all

text \<open>
  Claim C8. An analyzer output whose \<open>interfaces\<close> or \<open>structs\<close> member is missing or is
  not an array is rejected with one of the two validation errors; nothing is repaired and
  no result is produced.
\<close>

theorem validateOutput_rejects:
  assumes "k = ''interfaces'' \<or> k = ''structs''"
      and "getProperty j k = None \<or> (\<exists>v. getProperty j k = Some v \<and> (\<forall>xs. v \<noteq> JArray xs))"
  shows "validateOutput (Inr j) = Inl (Error ''Invalid analyzer output: not an object'')
         \<or> validateOutput (Inr j) =
             Inl (Error ''Invalid analyzer output: missing interfaces or structs arrays'')"
proof -
  from assms(2) have "\<not> isArray (getProperty j k)"
    by (auto simp: isArray_iff)
  with assms(1) have "\<not> isArray (getProperty j ''interfaces'') \<or> \<not> isArray (getProperty j ''structs'')"
    by blast
  then show ?thesis
    by (simp add: validateOutput_def)
qed

theorem validateOutput_rejects_witness:
  "validateOutput (Inr noStructsOutput) =
     Inl (Error ''Invalid analyzer output: missing interfaces or structs arrays'')
   \<and> validateOutput (Inr stringInterfacesOutput) =
     Inl (Error ''Invalid analyzer output: missing interfaces or structs arrays'')"
proof -
  have k1: "''structs'' = ''interfaces'' \<or> ''structs'' = ''structs''" by simp
  have m1: "getProperty noStructsOutput ''structs'' = None
            \<or> (\<exists>v. getProperty noStructsOutput ''structs'' = Some v \<and> (\<forall>xs. v \<noteq> JArray xs))"
    by (simp add: noStructsOutput_def)
  have k2: "''interfaces'' = ''interfaces'' \<or> ''interfaces'' = ''structs''" by simp
  have m2: "getProperty stringInterfacesOutput ''interfaces'' = None
            \<or> (\<exists>v. getProperty stringInterfacesOutput ''interfaces'' = Some v \<and> (\<forall>xs. v \<noteq> JArray xs))"
    by (simp add: stringInterfacesOutput_def)
  have o1: "validateOutput (Inr noStructsOutput) \<noteq> Inl (Error ''Invalid analyzer output: not an object'')"
    by (simp add: validateOutput_def noStructsOutput_def)
  have o2: "validateOutput (Inr stringInterfacesOutput) \<noteq> Inl (Error ''Invalid analyzer output: not an object'')"
    by (simp add: validateOutput_def stringInterfacesOutput_def)
  from validateOutput_rejects [OF k1 m1] o1 validateOutput_rejects [OF k2 m2] o2
  show ?thesis by blast
qed

section \<open>Recorded paths\<close>

lemma Split_nonempty [simp]: "Split sep s \<noteq> []"
  by (induction s) (auto split: list.splits)

lemma Split_no_sep: "p \<in> set (Split sep s) \<Longrightarrow> sep \<notin> set p"
proof (induction s arbitrary: p)
  case Nil
  then show ?case by simp
next
  case (Cons c s)
  show ?case
  proof (cases "c = sep")
    case True
    then show ?thesis using Cons by auto
  next
    case False
    obtain q qs where q: "Split sep s = q # qs"
      using Split_nonempty [of sep s] by (cases "Split sep s") auto
    then have "p = c # q \<or> p \<in> set qs"
      using Cons.prems False by simp
    then show ?thesis
      using Cons.IH [of q] Cons.IH [of p] q False by auto
  qed
qed

lemma Split_single: "sep \<notin> set p \<Longrightarrow> Split sep p = [p]"
  by (induction p) auto

lemma Split_append: "sep \<notin> set p \<Longrightarrow> Split sep (p @ sep # s) = p # Split sep s"
  by (induction p) auto

lemma Split_Join:
  "ps \<noteq> [] \<Longrightarrow> \<forall>p \<in> set ps. sep \<notin> set p \<Longrightarrow> Split sep (Join ps [sep]) = ps"
proof (induction ps "[sep]" rule: Join.induct)
  case 1
  then show ?case by simp
next
  case (2 p)
  then show ?case by (simp add: Split_single)
next
  case (3 p v va)
  then show ?case by (simp add: Split_append)
qed


lemma ToSlash_Windows: "ToSlash Windows p = map (\<lambda>c. if c = CHR 0x5C then CHR ''/'' else c) p"
  by (simp add: ToSlash_def)

lemma ToSlash_Unix: "ToSlash Unix p = p"
  by (simp add: ToSlash_def)

lemma ToSlash_no_backslash:
  "CHR 0x5C \<notin> set p \<Longrightarrow> ToSlash os p = map (\<lambda>c. if c = CHR 0x5C then CHR ''/'' else c) p"
proof (cases os)
  case Windows
  then show ?thesis by (simp add: ToSlash_Windows)
next
  case Unix
  assume "CHR 0x5C \<notin> set p"
  then have "map (\<lambda>c. if c = CHR 0x5C then CHR ''/'' else c) p = p"
    by (induction p) auto
  then show ?thesis using Unix by (simp add: ToSlash_Unix)
qed

lemma makeRelativePath_Split:
  assumes "length (Split (CHR ''/'') (ToSlash os p)) > 2"
  shows "Split (CHR ''/'') (makeRelativePath os p) =
           drop (length (Split (CHR ''/'') (ToSlash os p)) - 3) (Split (CHR ''/'') (ToSlash os p))"
proof -
  let ?parts = "Split (CHR ''/'') (ToSlash os p)"
  let ?last = "drop (length ?parts - 3) ?parts"
  have ne: "?last \<noteq> []" using assms by simp
  have "\<forall>q \<in> set ?last. CHR ''/'' \<notin> set q"
    using Split_no_sep [of _ "CHR ''/''" "ToSlash os p"] in_set_dropD by fast
  then have "Split (CHR ''/'') (Join ?last [CHR ''/'']) = ?last"
    using ne Split_Join by blast
  then show ?thesis using assms by (simp add: makeRelativePath_def Let_def)
qed

text \<open>
  Claim C10, amended. On Windows the stored path is the path of the specification:
  backslashes become slashes and the last three slash-separated components are kept when
  there are more than two. So it is on every platform for a path without a backslash.
  Elsewhere the path is taken as it is, a backslash stays, and the same three components
  are kept. In every case the stored path has at most three slash-separated components,
  and exactly the last three of the converted path when that has more than two.
\<close>

theorem makeRelativePath_spec:
  "makeRelativePath Windows p = spec_relative_path p
   \<and> (CHR 0x5C \<notin> set p \<longrightarrow> makeRelativePath os p = spec_relative_path p)
   \<and> makeRelativePath Unix p =
        (if length (Split (CHR ''/'') p) > 2
         then Join (drop (length (Split (CHR ''/'') p) - 3) (Split (CHR ''/'') p)) ''/''
         else p)
   \<and> (length (Split (CHR ''/'') (ToSlash os p)) > 2 \<longrightarrow>
         Split (CHR ''/'') (makeRelativePath os p) =
           drop (length (Split (CHR ''/'') (ToSlash os p)) - 3) (Split (CHR ''/'') (ToSlash os p)))
   \<and> length (Split (CHR ''/'') (makeRelativePath os p)) \<le> 3"
proof -
  have w: "makeRelativePath Windows p = spec_relative_path p"
    by (simp add: makeRelativePath_def spec_relative_path_def ToSlash_Windows)
  have n: "CHR 0x5C \<notin> set p \<longrightarrow> makeRelativePath os p = spec_relative_path p"
    by (simp add: makeRelativePath_def spec_relative_path_def ToSlash_no_backslash)
  have u: "makeRelativePath Unix p =
        (if length (Split (CHR ''/'') p) > 2
         then Join (drop (length (Split (CHR ''/'') p) - 3) (Split (CHR ''/'') p)) ''/''
         else p)"
    by (simp add: makeRelativePath_def ToSlash_Unix Let_def)
  have s: "length (Split (CHR ''/'') (ToSlash os p)) > 2 \<longrightarrow>
         Split (CHR ''/'') (makeRelativePath os p) =
           drop (length (Split (CHR ''/'') (ToSlash os p)) - 3) (Split (CHR ''/'') (ToSlash os p))"
    using makeRelativePath_Split by blast
  have l: "length (Split (CHR ''/'') (makeRelativePath os p)) \<le> 3"
  proof (cases "length (Split (CHR ''/'') (ToSlash os p)) > 2")
    case True
    then show ?thesis by (simp add: makeRelativePath_Split)
  next
    case False
    then have "makeRelativePath os p = ToSlash os p"
      by (simp add: makeRelativePath_def Let_def)
    then show ?thesis using False by simp
  qed
  from w n u s l show ?thesis by (intro conjI)
qed

lemma Split_backslashFile:
  "Split (CHR ''/'') backslashFile = ['''', ''home'', ''u'', ''my'' @ [CHR 0x5C] @ ''proj'', ''main.go'']"
  by (simp add: backslashFile_def)

lemma makeRelativePath_backslashFile:
  "makeRelativePath Unix backslashFile = ''u/my'' @ [CHR 0x5C] @ ''proj/main.go''"
  by (simp add: makeRelativePath_def ToSlash_Unix Split_backslashFile)

lemma spec_relative_path_backslashFile:
  "spec_relative_path backslashFile = ''my/proj/main.go''"
  by code_simp

text \<open>
  Claim C10 as stated says that backslashes are always converted. Where the separator is
  a slash they are not: for the file \<open>main.go\<close> in a directory below \<open>/home/u\<close> whose
  name is \<open>my\<close>, a backslash and \<open>proj\<close>, the analyzer stores the last three components
  with the backslash kept, and the path of the specification is \<open>my/proj/main.go\<close>.
\<close>

theorem makeRelativePath_backslash_counterexample:
  "makeRelativePath Unix backslashFile \<noteq> spec_relative_path backslashFile"
  by (simp add: makeRelativePath_backslashFile spec_relative_path_backslashFile)

theorem makeRelativePath_spec_witness:
  "makeRelativePath Unix shapesFile = ''shapes/geometry/shapes.go''
   \<and> makeRelativePath Unix shapesFile = spec_relative_path shapesFile
   \<and> Split (CHR ''/'') (makeRelativePath Unix shapesFile) = [''shapes'', ''geometry'', ''shapes.go'']"
proof -
  note t = makeRelativePath_spec [of shapesFile Unix]
  have sp: "Split (CHR ''/'') shapesFile = ['''', ''work'', ''shapes'', ''geometry'', ''shapes.go'']"
    by (simp add: shapesFile_def)
  have nb: "CHR 0x5C \<notin> set shapesFile"
    by (simp add: shapesFile_def)
  have 1: "makeRelativePath Unix shapesFile = ''shapes/geometry/shapes.go''"
    using t by (simp add: sp)
  have 2: "makeRelativePath Unix shapesFile = spec_relative_path shapesFile"
    using t nb by blast
  have 3: "Split (CHR ''/'') (makeRelativePath Unix shapesFile) = [''shapes'', ''geometry'', ''shapes.go'']"
    using t by (simp add: ToSlash_Unix sp)
  from 1 2 3 show ?thesis by (intro conjI)
qed

end
